theory Spec2Isabelle
  imports Main "HOL-Library.Signed_Division"
begin

section \<open>The routing unit of a Garnet router with wireless shortcuts\<close>

text \<open>
  A shallow embedding of \<^verbatim>\<open>src/garnet/RoutingUnit.cc\<close>: the table lookup
  (\<^verbatim>\<open>lookupRoutingTable\<close>), dimension-order routing (\<^verbatim>\<open>outportComputeXY\<close>) and
  the hybrid wired/wireless selector (\<^verbatim>\<open>outportComputeCustom\<close>).

  C++ \<^verbatim>\<open>int\<close> values are modelled as \<open>int\<close>. Signed overflow is undefined behaviour
  in C++, so the model describes the executions in which no intermediate value leaves
  the range of \<^verbatim>\<open>int\<close>; where a statement depends on a value being a machine integer
  the bound is a hypothesis. Integer division and remainder truncate towards zero
  (\<open>sdiv\<close>, \<open>smod\<close>), as in C++.
\<close>

subsection \<open>Data\<close>

type_synonym PortDirection = string

text \<open>
  \<^verbatim>\<open>NetDest\<close> is declared outside this file; the code only asks whether two
  destinations share an element, so a destination is the set of the machines it names.
\<close>

type_synonym NetDest = "nat set"

definition intersectionIsNotEmpty :: "NetDest \<Rightarrow> NetDest \<Rightarrow> bool" where
  "intersectionIsNotEmpty a b \<longleftrightarrow> a \<inter> b \<noteq> {}"

text \<open>The fields of \<^verbatim>\<open>RouteInfo\<close> that the routing unit reads.\<close>

record RouteInfo =
  vnet :: int
  net_dest :: NetDest
  dest_router :: int

text \<open>
  What the routing unit asks of its router and of the network behind it
  (\<^verbatim>\<open>m_router->get_id()\<close>, \<^verbatim>\<open>m_router->get_net_ptr()->getNumCols()\<close>, ...).
  \<^verbatim>\<open>hybrid_connections\<close> is an unordered map from a router id to a vector of router
  ids: an association list, in the order in which the map is iterated.
\<close>

record Router =
  get_id :: int
  getNumRows :: int
  getNumCols :: int
  isVNetOrdered :: "int \<Rightarrow> bool"
  get_hybrid_connections :: "(int \<times> int list) list"

text \<open>The members of \<^verbatim>\<open>RoutingUnit\<close>.\<close>

record RoutingUnit =
  m_routing_table :: "NetDest list list"
  m_weight_table :: "int list"
  m_inports_dirn2idx :: "PortDirection \<rightharpoonup> int"
  m_inports_idx2dirn :: "int \<rightharpoonup> PortDirection"
  m_outports_idx2dirn :: "int \<rightharpoonup> PortDirection"
  m_outports_dirn2idx :: "PortDirection \<rightharpoonup> int"

text \<open>
  The ways in which a call ends without a result: \<^verbatim>\<open>fatal\<close>, a failed \<^verbatim>\<open>assert\<close>,
  \<^verbatim>\<open>panic\<close>, an index outside a vector, and a division by zero.
\<close>

datatype error = NoRouteExists | AssertionFailed | Panic | OutOfRange | DivisionByZero

definition INT_MAX :: int where
  "INT_MAX = 2147483647"

subsection \<open>Construction\<close>

definition RoutingUnit_init :: RoutingUnit where
  "RoutingUnit_init =
     \<lparr>m_routing_table = [], m_weight_table = [],
      m_inports_dirn2idx = Map.empty, m_inports_idx2dirn = Map.empty,
      m_outports_idx2dirn = Map.empty, m_outports_dirn2idx = Map.empty\<rparr>"

text \<open>
  \<^verbatim>\<open>addRoute\<close>: the table grows to one row for each virtual network of the entry,
  and row \<open>v\<close> gains the entry's destination for \<open>v\<close>.
\<close>

definition addRoute :: "NetDest list \<Rightarrow> RoutingUnit \<Rightarrow> RoutingUnit" where
  "addRoute routing_table_entry ru =
     (let table = m_routing_table ru;
          resized =
            (if length routing_table_entry > length table
             then table @ replicate (length routing_table_entry - length table) []
             else table)
      in ru\<lparr>m_routing_table :=
              map (\<lambda>v. if v < length routing_table_entry
                        then resized ! v @ [routing_table_entry ! v] else resized ! v)
                  [0..<length resized]\<rparr>)"

definition addWeight :: "int \<Rightarrow> RoutingUnit \<Rightarrow> RoutingUnit" where
  "addWeight link_weight ru = ru\<lparr>m_weight_table := m_weight_table ru @ [link_weight]\<rparr>"

definition addInDirection :: "PortDirection \<Rightarrow> int \<Rightarrow> RoutingUnit \<Rightarrow> RoutingUnit" where
  "addInDirection inport_dirn inport_idx ru =
     ru\<lparr>m_inports_dirn2idx := (m_inports_dirn2idx ru)(inport_dirn \<mapsto> inport_idx),
        m_inports_idx2dirn := (m_inports_idx2dirn ru)(inport_idx \<mapsto> inport_dirn)\<rparr>"

definition addOutDirection :: "PortDirection \<Rightarrow> int \<Rightarrow> RoutingUnit \<Rightarrow> RoutingUnit" where
  "addOutDirection outport_dirn outport_idx ru =
     ru\<lparr>m_outports_dirn2idx := (m_outports_dirn2idx ru)(outport_dirn \<mapsto> outport_idx),
        m_outports_idx2dirn := (m_outports_idx2dirn ru)(outport_idx \<mapsto> outport_dirn)\<rparr>"

subsection \<open>\<^verbatim>\<open>supportsVnet\<close>\<close>

definition supportsVnet :: "int \<Rightarrow> int list \<Rightarrow> bool" where
  "supportsVnet vn sVnets =
     (if length sVnets = 0 then True
      else if List.find (\<lambda>v. v = vn) sVnets \<noteq> None then True
      else False)"

subsection \<open>\<^verbatim>\<open>lookupRoutingTable\<close>\<close>

text \<open>
  The first loop: the least weight among the links whose entry meets the destination,
  starting from \<^verbatim>\<open>INFINITE_\<close>. \<open>link\<close> is the index of the head of the remaining
  row. \<^verbatim>\<open>m_weight_table[link]\<close> is read only for such links; a read past the end
  of the vector is \<open>OutOfRange\<close>.
\<close>

fun find_min_weight :: "NetDest \<Rightarrow> int list \<Rightarrow> NetDest list \<Rightarrow> nat \<Rightarrow> int \<Rightarrow> error + int" where
  "find_min_weight msg_destination wt [] link min_weight = Inr min_weight"
| "find_min_weight msg_destination wt (e # es) link min_weight =
     (if intersectionIsNotEmpty msg_destination e then
        (if link < length wt then
           find_min_weight msg_destination wt es (Suc link)
             (if wt ! link \<le> min_weight then wt ! link else min_weight)
         else Inl OutOfRange)
      else find_min_weight msg_destination wt es (Suc link) min_weight)"

text \<open>
  The second loop: the links whose entry meets the destination and whose weight is the
  minimum, in table order. \<^verbatim>\<open>num_candidates\<close> is incremented exactly when a link
  is pushed, so it is the length of the list.
\<close>

fun collect_candidates :: "NetDest \<Rightarrow> int list \<Rightarrow> NetDest list \<Rightarrow> nat \<Rightarrow> int \<Rightarrow> error + nat list" where
  "collect_candidates msg_destination wt [] link min_weight = Inr []"
| "collect_candidates msg_destination wt (e # es) link min_weight =
     (if intersectionIsNotEmpty msg_destination e then
        (if link < length wt then
           (case collect_candidates msg_destination wt es (Suc link) min_weight of
              Inl err \<Rightarrow> Inl err
            | Inr cs \<Rightarrow> Inr (if wt ! link = min_weight then link # cs else cs))
         else Inl OutOfRange)
      else collect_candidates msg_destination wt es (Suc link) min_weight)"

text \<open>
  \<open>INFINITE\<close> is the value of the macro \<^verbatim>\<open>INFINITE_\<close>, which is defined outside this
  file, and \<open>rnd\<close> is the value that \<^verbatim>\<open>rand()\<close> returns (never negative), read only
  for an unordered virtual network. \<^verbatim>\<open>m_routing_table[vnet]\<close> outside the table
  is \<open>OutOfRange\<close>.
\<close>

definition lookupRoutingTable ::
    "int \<Rightarrow> Router \<Rightarrow> RoutingUnit \<Rightarrow> nat \<Rightarrow> int \<Rightarrow> NetDest \<Rightarrow> error + int" where
  "lookupRoutingTable INFINITE rtr ru rnd vn msg_destination =
     (if vn < 0 \<or> int (length (m_routing_table ru)) \<le> vn then Inl OutOfRange
      else
        let row = m_routing_table ru ! nat vn in
        case find_min_weight msg_destination (m_weight_table ru) row 0 INFINITE of
          Inl err \<Rightarrow> Inl err
        | Inr min_weight \<Rightarrow>
            (case collect_candidates msg_destination (m_weight_table ru) row 0 min_weight of
               Inl err \<Rightarrow> Inl err
             | Inr output_link_candidates \<Rightarrow>
                 if length output_link_candidates = 0 then Inl NoRouteExists
                 else
                   let num_candidates = length output_link_candidates;
                       candidate = (if \<not> isVNetOrdered rtr vn then rnd mod num_candidates else 0)
                   in if candidate < length output_link_candidates
                      then Inr (int (output_link_candidates ! candidate))
                      else Inl OutOfRange))"

subsection \<open>Resolving a direction\<close>

text \<open>
  \<^verbatim>\<open>m_outports_dirn2idx[outport_dirn]\<close>. The same \<^verbatim>\<open>operator[]\<close> registers a
  direction in \<^verbatim>\<open>addOutDirection\<close>, so on a key that the map does not hold it makes
  the entry instead of failing: the entry is the value-initialised \<^verbatim>\<open>int\<close>, 0, and it
  stays in the map.
\<close>

definition dirn2idx_index ::
    "(PortDirection \<rightharpoonup> int) \<Rightarrow> PortDirection \<Rightarrow> int \<times> (PortDirection \<rightharpoonup> int)" where
  "dirn2idx_index m dirn =
     (case m dirn of Some idx \<Rightarrow> (idx, m) | None \<Rightarrow> (0, m(dirn \<mapsto> 0)))"

definition resolve_outport :: "RoutingUnit \<Rightarrow> PortDirection \<Rightarrow> int \<times> RoutingUnit" where
  "resolve_outport ru dirn =
     (case dirn2idx_index (m_outports_dirn2idx ru) dirn of
        (idx, m) \<Rightarrow> (idx, ru\<lparr>m_outports_dirn2idx := m\<rparr>))"

subsection \<open>\<^verbatim>\<open>outportComputeXY\<close>\<close>

text \<open>
  The body of \<^verbatim>\<open>outportComputeXY\<close> up to its last line: the direction
  \<^verbatim>\<open>outport_dirn\<close>, or the assertion or panic that ends the call.
\<close>

definition outportComputeXY_dirn :: "Router \<Rightarrow> RouteInfo \<Rightarrow> PortDirection \<Rightarrow> error + PortDirection" where
  "outportComputeXY_dirn rtr route inport_dirn =
     (let num_rows = getNumRows rtr;
          num_cols = getNumCols rtr
      in if \<not> (num_rows > 0 \<and> num_cols > 0) then Inl AssertionFailed
      else
        let my_id = get_id rtr;
            my_x = my_id smod num_cols;
            my_y = my_id sdiv num_cols;
            dest_id = dest_router route;
            dest_x = dest_id smod num_cols;
            dest_y = dest_id sdiv num_cols;
            x_hops = \<bar>dest_x - my_x\<bar>;
            y_hops = \<bar>dest_y - my_y\<bar>;
            x_dirn = (dest_x \<ge> my_x);
            y_dirn = (dest_y \<ge> my_y)
        in if x_hops = 0 \<and> y_hops = 0 then Inl AssertionFailed
        else if x_hops > 0 then
          (if x_dirn then
             (if inport_dirn = ''Local'' \<or> inport_dirn = ''West'' \<or> inport_dirn = ''Wireless_In''
              then Inr ''East'' else Inl AssertionFailed)
           else
             (if inport_dirn = ''Local'' \<or> inport_dirn = ''East'' \<or> inport_dirn = ''Wireless_In''
              then Inr ''West'' else Inl AssertionFailed))
        else if y_hops > 0 then
          (if y_dirn then
             (if inport_dirn \<noteq> ''North'' then Inr ''North'' else Inl AssertionFailed)
           else
             (if inport_dirn \<noteq> ''South'' then Inr ''South'' else Inl AssertionFailed))
        else Inl Panic)"

definition outportComputeXY ::
    "Router \<Rightarrow> RoutingUnit \<Rightarrow> RouteInfo \<Rightarrow> int \<Rightarrow> PortDirection \<Rightarrow> error + int \<times> RoutingUnit" where
  "outportComputeXY rtr ru route inport inport_dirn =
     (case outportComputeXY_dirn rtr route inport_dirn of
        Inl err \<Rightarrow> Inl err
      | Inr outport_dirn \<Rightarrow> Inr (resolve_outport ru outport_dirn))"

subsection \<open>\<^verbatim>\<open>outportComputeCustom\<close>\<close>

definition calculateHops :: "int \<Rightarrow> int \<Rightarrow> int \<Rightarrow> int" where
  "calculateHops num_cols src_id dst_id =
     (let src_x = src_id smod num_cols;
          src_y = src_id sdiv num_cols;
          dst_x = dst_id smod num_cols;
          dst_y = dst_id sdiv num_cols
      in \<bar>dst_x - src_x\<bar> + \<bar>dst_y - src_y\<bar>)"

text \<open>The three variables that the search for a wireless shortcut updates.\<close>

record HybridChoice =
  hybrid_hops :: int
  best_hybrid_router :: int
  dest_hybrid_router :: int

definition no_choice :: HybridChoice where
  "no_choice = \<lparr>hybrid_hops = INT_MAX, best_hybrid_router = -1, dest_hybrid_router = -1\<rparr>"

text \<open>The test \<^verbatim>\<open>my_id == 18 || my_id == 45 || my_id == 50 || my_id == 21\<close>.\<close>

definition at_hybrid_router :: "int \<Rightarrow> bool" where
  "at_hybrid_router my_id \<longleftrightarrow> my_id = 18 \<or> my_id = 45 \<or> my_id = 50 \<or> my_id = 21"

text \<open>
  \<^verbatim>\<open>hybrid_connections[my_id]\<close>: the vector stored under the key, and an empty vector
  under a key that the map does not hold. (The entry that the map then gains is never
  read: the member is assigned anew at the start of every call.)
\<close>

definition connections_of :: "(int \<times> int list) list \<Rightarrow> int \<Rightarrow> int list" where
  "connections_of hybrid_connections my_id =
     (case map_of hybrid_connections my_id of Some v \<Rightarrow> v | None \<Rightarrow> [])"

text \<open>The loop taken at one of the four routers: over the routers connected to this one.\<close>

fun scan_connected :: "int \<Rightarrow> int \<Rightarrow> int list \<Rightarrow> HybridChoice \<Rightarrow> HybridChoice" where
  "scan_connected num_cols dest_id [] c = c"
| "scan_connected num_cols dest_id (connected_router # rest) c =
     (let hops = calculateHops num_cols connected_router dest_id + 1
      in scan_connected num_cols dest_id rest
           (if hops < hybrid_hops c
            then \<lparr>hybrid_hops = hops, best_hybrid_router = connected_router,
                  dest_hybrid_router = connected_router\<rparr>
            else c))"

text \<open>The loops taken elsewhere: over every entry of the map, and over its vector.\<close>

fun scan_entry :: "int \<Rightarrow> int \<Rightarrow> int \<Rightarrow> int \<Rightarrow> int list \<Rightarrow> HybridChoice \<Rightarrow> HybridChoice" where
  "scan_entry num_cols dest_id hybrid_router hops_to_hybrid [] c = c"
| "scan_entry num_cols dest_id hybrid_router hops_to_hybrid (connected_router # rest) c =
     (let total_hops = hops_to_hybrid + 1 + calculateHops num_cols connected_router dest_id
      in scan_entry num_cols dest_id hybrid_router hops_to_hybrid rest
           (if total_hops < hybrid_hops c
            then \<lparr>hybrid_hops = total_hops, best_hybrid_router = hybrid_router,
                  dest_hybrid_router = connected_router\<rparr>
            else c))"

fun scan_entries :: "int \<Rightarrow> int \<Rightarrow> int \<Rightarrow> (int \<times> int list) list \<Rightarrow> HybridChoice \<Rightarrow> HybridChoice" where
  "scan_entries num_cols my_id dest_id [] c = c"
| "scan_entries num_cols my_id dest_id (entry # rest) c =
     (let hybrid_router = fst entry;
          hops_to_hybrid = calculateHops num_cols my_id hybrid_router
      in scan_entries num_cols my_id dest_id rest
           (scan_entry num_cols dest_id hybrid_router hops_to_hybrid (snd entry) c))"

definition hybrid_search :: "int \<Rightarrow> int \<Rightarrow> int \<Rightarrow> (int \<times> int list) list \<Rightarrow> HybridChoice" where
  "hybrid_search num_cols my_id dest_id hybrid_connections =
     (if at_hybrid_router my_id
      then scan_connected num_cols dest_id (connections_of hybrid_connections my_id) no_choice
      else scan_entries num_cols my_id dest_id hybrid_connections no_choice)"

text \<open>\<^verbatim>\<open>std::to_string\<close> of an \<^verbatim>\<open>int\<close>: decimal, with a minus sign below zero.\<close>

fun nat_to_string :: "nat \<Rightarrow> string" where
  "nat_to_string n =
     (if n < 10 then [''0123456789'' ! n]
      else nat_to_string (n div 10) @ [''0123456789'' ! (n mod 10)])"

definition to_string :: "int \<Rightarrow> string" where
  "to_string i = (if i < 0 then CHR ''-'' # nat_to_string (nat (- i)) else nat_to_string (nat i))"

text \<open>
  The direction taken when the wireless path has fewer hops, and the router returned
  with it. \<open>''Unknown''\<close> is the initial value of \<^verbatim>\<open>outport_dirn\<close>, which none of the
  four tests replaces when the chosen router has this router's own coordinates. (The
  line written to \<^verbatim>\<open>std::cout\<close> is left out.)
\<close>

definition hybrid_dirn :: "int \<Rightarrow> int \<Rightarrow> HybridChoice \<Rightarrow> PortDirection \<times> int" where
  "hybrid_dirn num_cols my_id c =
     (if at_hybrid_router my_id
      then (''Wireless_Out'' @ to_string (dest_hybrid_router c), dest_hybrid_router c)
      else
        let my_x = my_id smod num_cols;
            my_y = my_id sdiv num_cols;
            next_x = best_hybrid_router c smod num_cols;
            next_y = best_hybrid_router c sdiv num_cols;
            outport_dirn =
              (if next_x > my_x then ''East''
               else if next_x < my_x then ''West''
               else if next_y > my_y then ''North''
               else if next_y < my_y then ''South''
               else ''Unknown'')
        in (outport_dirn, dest_hybrid_router c))"

text \<open>
  \<^verbatim>\<open>outportComputeCustom\<close> has no assertion on \<^verbatim>\<open>num_cols\<close>; its first use is a
  remainder, which for 0 is a division by zero.
\<close>

definition outportComputeCustom ::
    "Router \<Rightarrow> RoutingUnit \<Rightarrow> RouteInfo \<Rightarrow> int \<Rightarrow> PortDirection
       \<Rightarrow> error + (int \<times> int) \<times> RoutingUnit" where
  "outportComputeCustom rtr ru route inport inport_dirn =
     (let num_cols = getNumCols rtr
      in if num_cols = 0 then Inl DivisionByZero
      else
        let my_id = get_id rtr;
            dest_id = dest_router route;
            hybrid_connections = get_hybrid_connections rtr;
            xy_hops = calculateHops num_cols my_id dest_id;
            c = hybrid_search num_cols my_id dest_id hybrid_connections
        in if hybrid_hops c < xy_hops then
             (case hybrid_dirn num_cols my_id c of
                (dir, hub) \<Rightarrow>
                  (case resolve_outport ru dir of (idx, ru') \<Rightarrow> Inr ((idx, hub), ru')))
           else
             (case outportComputeXY rtr ru route inport inport_dirn of
                Inl err \<Rightarrow> Inl err
              | Inr (idx, ru') \<Rightarrow> Inr ((idx, -1), ru')))"

section \<open>Notions that the properties speak of\<close>

text \<open>
  The coordinates of a router, as both routing functions compute them, the Manhattan
  distance between coordinates, and the place that a wired direction leads to: in the
  mesh East is the next column and North the next row (the code goes East towards a
  larger column and North towards a larger row).
\<close>

definition coords :: "int \<Rightarrow> int \<Rightarrow> int \<times> int" where
  "coords num_cols router_id = (router_id smod num_cols, router_id sdiv num_cols)"

definition manhattan :: "int \<times> int \<Rightarrow> int \<times> int \<Rightarrow> int" where
  "manhattan p q = \<bar>fst q - fst p\<bar> + \<bar>snd q - snd p\<bar>"

definition move :: "PortDirection \<Rightarrow> int \<times> int \<Rightarrow> int \<times> int" where
  "move dirn p =
     (if dirn = ''East'' then (fst p + 1, snd p)
      else if dirn = ''West'' then (fst p - 1, snd p)
      else if dirn = ''North'' then (fst p, snd p + 1)
      else if dirn = ''South'' then (fst p, snd p - 1)
      else p)"

text \<open>
  The single step from \<open>p\<close> towards other coordinates \<open>q\<close>, a horizontal step
  whenever the columns differ.
\<close>

definition towards :: "int \<times> int \<Rightarrow> int \<times> int \<Rightarrow> PortDirection" where
  "towards p q =
     (if fst q \<noteq> fst p then (if fst q > fst p then ''East'' else ''West'')
      else (if snd q > snd p then ''North'' else ''South''))"

text \<open>
  The hop counts of the paths with one wireless hop: from this router over the wires to
  a router \<open>h1\<close> of the map, through the air to a router \<open>h2\<close> connected to \<open>h1\<close>, and
  over the wires to the destination.
\<close>

definition single_wireless_costs :: "int \<Rightarrow> int \<Rightarrow> int \<Rightarrow> (int \<times> int list) list \<Rightarrow> int list" where
  "single_wireless_costs num_cols my_id dest_id hybrid_connections =
     concat (map (\<lambda>entry. map (\<lambda>h2. calculateHops num_cols my_id (fst entry) + 1
                                        + calculateHops num_cols h2 dest_id) (snd entry))
                 hybrid_connections)"

text \<open>The hop counts of the paths that start with the wireless hop.\<close>

definition direct_wireless_costs :: "int \<Rightarrow> int \<Rightarrow> int list \<Rightarrow> int list" where
  "direct_wireless_costs num_cols dest_id connected =
     map (\<lambda>h. calculateHops num_cols h dest_id + 1) connected"

text \<open>
  The two hop counts that a call of \<^verbatim>\<open>outportComputeCustom\<close> compares, and its two
  outcomes: the wireless path, and the result of \<^verbatim>\<open>outportComputeXY\<close> with -1.
\<close>

definition xyHops :: "Router \<Rightarrow> RouteInfo \<Rightarrow> int" where
  "xyHops rtr route = calculateHops (getNumCols rtr) (get_id rtr) (dest_router route)"

definition hybridChoice :: "Router \<Rightarrow> RouteInfo \<Rightarrow> HybridChoice" where
  "hybridChoice rtr route =
     hybrid_search (getNumCols rtr) (get_id rtr) (dest_router route) (get_hybrid_connections rtr)"

definition hybridPath :: "Router \<Rightarrow> RoutingUnit \<Rightarrow> RouteInfo \<Rightarrow> (int \<times> int) \<times> RoutingUnit" where
  "hybridPath rtr ru route =
     (let choice = hybrid_dirn (getNumCols rtr) (get_id rtr) (hybridChoice rtr route);
          port = resolve_outport ru (fst choice)
      in ((fst port, snd choice), snd port))"

definition wiredPath :: "Router \<Rightarrow> RoutingUnit \<Rightarrow> RouteInfo \<Rightarrow> int \<Rightarrow> PortDirection \<Rightarrow> error + (int \<times> int) \<times> RoutingUnit" where
  "wiredPath rtr ru route inport inport_dirn =
     (case outportComputeXY rtr ru route inport inport_dirn of
        Inl err \<Rightarrow> Inl err
      | Inr (idx, ru') \<Rightarrow> Inr ((idx, -1), ru'))"

subsection \<open>Configurations for the examples\<close>

text \<open>
  A router of an 8 by 8 mesh in which virtual network 0 is ordered, a packet for a
  router, a routing unit with the five wired directions, and a routing unit with two
  links of given weights on two virtual networks.
\<close>

definition mesh_router :: "int \<Rightarrow> (int \<times> int list) list \<Rightarrow> Router" where
  "mesh_router router_id hybrid_connections =
     \<lparr>get_id = router_id, getNumRows = 8, getNumCols = 8, isVNetOrdered = (\<lambda>v. v = 0),
      get_hybrid_connections = hybrid_connections\<rparr>"

definition route_to :: "int \<Rightarrow> RouteInfo" where
  "route_to dest_id = \<lparr>vnet = 0, net_dest = {}, dest_router = dest_id\<rparr>"

definition mesh_unit :: RoutingUnit where
  "mesh_unit =
     addOutDirection ''South'' 4 (addOutDirection ''North'' 3 (addOutDirection ''West'' 2
       (addOutDirection ''East'' 1 (addOutDirection ''Local'' 0 RoutingUnit_init))))"

definition two_links :: "int \<Rightarrow> int \<Rightarrow> RoutingUnit" where
  "two_links w0 w1 =
     addWeight w1 (addRoute [{1, 2}, {1, 2}]
       (addWeight w0 (addRoute [{0, 1}, {0, 1}] RoutingUnit_init)))"

text \<open>The four hybrid routers of the mesh, each connected to the other three.\<close>

definition four_hubs :: "(int \<times> int list) list" where
  "four_hubs = [(18, [21, 45, 50]), (21, [18, 45, 50]), (45, [18, 21, 50]), (50, [18, 21, 45])]"

text \<open>The same four routers, connected in two pairs.\<close>

definition paired_hubs :: "(int \<times> int list) list" where
  "paired_hubs = [(18, [50]), (50, [18]), (21, [45]), (45, [21])]"

text \<open>Two hybrid routers other than those four.\<close>

definition other_hubs :: "(int \<times> int list) list" where
  "other_hubs = [(5, [60]), (60, [5])]"

section \<open>Lemmas\<close>

subsection \<open>The two loops of the table lookup\<close>

lemma find_min_weight_Inr:
  "find_min_weight d wt es link mw = Inr m \<Longrightarrow>
     m \<le> mw \<and>
     (\<forall>i<length es. intersectionIsNotEmpty d (es ! i) \<longrightarrow> link + i < length wt \<and> m \<le> wt ! (link + i)) \<and>
     (m = mw \<or> (\<exists>i<length es. intersectionIsNotEmpty d (es ! i) \<and> m = wt ! (link + i)))"
proof (induction es arbitrary: link mw)
  case Nil
  then show ?case by simp
next
  case (Cons e es)
  show ?case
  proof (cases "intersectionIsNotEmpty d e")
    case True
    with Cons.prems have lt: "link < length wt"
      and rec: "find_min_weight d wt es (Suc link) (if wt ! link \<le> mw then wt ! link else mw) = Inr m"
      by (auto split: if_splits)
    from Cons.IH [OF rec] True lt show ?thesis
      by (auto simp: All_less_Suc2 Ex_less_Suc2 split: if_splits)
  next
    case False
    with Cons.prems have rec: "find_min_weight d wt es (Suc link) mw = Inr m"
      by simp
    from Cons.IH [OF rec] False show ?thesis
      by (auto simp: All_less_Suc2 Ex_less_Suc2)
  qed
qed

lemma find_min_weight_total:
  "(\<forall>i<length es. intersectionIsNotEmpty d (es ! i) \<longrightarrow> link + i < length wt) \<Longrightarrow>
     \<exists>m. find_min_weight d wt es link mw = Inr m"
proof (induction es arbitrary: link mw)
  case Nil
  then show ?case by simp
next
  case (Cons e es)
  from Cons.prems have "\<forall>i<length es. intersectionIsNotEmpty d (es ! i) \<longrightarrow> Suc link + i < length wt"
    by (auto simp: All_less_Suc2)
  from Cons.IH [OF this] Cons.prems show ?case
    by (auto simp: All_less_Suc2)
qed

lemma collect_candidates_Inr:
  "collect_candidates d wt es link mw = Inr cs \<Longrightarrow>
     sorted_wrt (<) cs \<and>
     (\<forall>l. l \<in> set cs \<longleftrightarrow>
        (\<exists>i<length es. l = link + i \<and> intersectionIsNotEmpty d (es ! i) \<and> wt ! l = mw))"
proof (induction es arbitrary: link cs)
  case Nil
  then show ?case by auto
next
  case (Cons e es)
  show ?case
  proof (cases "intersectionIsNotEmpty d e")
    case True
    with Cons.prems obtain cs' where rec: "collect_candidates d wt es (Suc link) mw = Inr cs'"
      and cs: "cs = (if wt ! link = mw then link # cs' else cs')"
      by (auto split: if_splits sum.splits)
    from Cons.IH [OF rec] have s: "sorted_wrt (<) cs'"
      and m: "\<And>l. l \<in> set cs' \<longleftrightarrow>
        (\<exists>i<length es. l = Suc link + i \<and> intersectionIsNotEmpty d (es ! i) \<and> wt ! l = mw)"
      by blast+
    have "sorted_wrt (<) cs" using s m cs by auto
    moreover have "\<And>l. l \<in> set cs \<longleftrightarrow>
        (\<exists>i<length (e # es). l = link + i \<and> intersectionIsNotEmpty d ((e # es) ! i) \<and> wt ! l = mw)"
      using True m cs by (auto simp: Ex_less_Suc2)
    ultimately show ?thesis by blast
  next
    case False
    with Cons.prems have rec: "collect_candidates d wt es (Suc link) mw = Inr cs"
      by simp
    from Cons.IH [OF rec] False show ?thesis
      by (auto simp: Ex_less_Suc2)
  qed
qed

lemma collect_candidates_total:
  "(\<forall>i<length es. intersectionIsNotEmpty d (es ! i) \<longrightarrow> link + i < length wt) \<Longrightarrow>
     \<exists>cs. collect_candidates d wt es link mw = Inr cs"
proof (induction es arbitrary: link)
  case Nil
  then show ?case by simp
next
  case (Cons e es)
  from Cons.prems have "\<forall>i<length es. intersectionIsNotEmpty d (es ! i) \<longrightarrow> Suc link + i < length wt"
    by (auto simp: All_less_Suc2)
  from Cons.IH [OF this] Cons.prems show ?case
    by (auto simp: All_less_Suc2)
qed


lemma sorted_wrt_less_nth0:
  fixes cs :: "nat list"
  assumes "sorted_wrt (<) cs" "k \<in> set cs"
  shows "cs ! 0 \<le> k"
  using assms by (cases cs) auto

lemma lookupRoutingTable_Inr:
  assumes "lookupRoutingTable INFINITE rtr ru rnd vn d = Inr p"
  shows "0 \<le> vn \<and> vn < int (length (m_routing_table ru)) \<and>
         (\<exists>l<length (m_routing_table ru ! nat vn).
            p = int l \<and> intersectionIsNotEmpty d (m_routing_table ru ! nat vn ! l) \<and>
            (\<forall>k<length (m_routing_table ru ! nat vn).
               intersectionIsNotEmpty d (m_routing_table ru ! nat vn ! k) \<longrightarrow>
                 m_weight_table ru ! l \<le> m_weight_table ru ! k \<and>
                 (isVNetOrdered rtr vn \<and> m_weight_table ru ! k = m_weight_table ru ! l \<longrightarrow> l \<le> k)))"
proof -
  define row where "row = m_routing_table ru ! nat vn"
  define wt where "wt = m_weight_table ru"
  from assms have vn: "0 \<le> vn" "vn < int (length (m_routing_table ru))"
    by (auto simp: lookupRoutingTable_def split: if_splits)
  from assms vn obtain m where m: "find_min_weight d wt row 0 INFINITE = Inr m"
    by (auto simp: lookupRoutingTable_def Let_def row_def wt_def split: if_splits sum.splits)
  from assms vn m obtain cs where cs: "collect_candidates d wt row 0 m = Inr cs"
    by (auto simp: lookupRoutingTable_def Let_def row_def wt_def split: if_splits sum.splits)
  define c where "c = (if \<not> isVNetOrdered rtr vn then rnd mod length cs else 0)"
  from assms vn m cs have c: "c < length cs" and p: "p = int (cs ! c)"
    by (auto simp: lookupRoutingTable_def Let_def row_def wt_def c_def split: if_splits)
  from find_min_weight_Inr [OF m]
  have least: "\<And>k. k < length row \<Longrightarrow> intersectionIsNotEmpty d (row ! k) \<Longrightarrow> m \<le> wt ! k"
    by simp
  from collect_candidates_Inr [OF cs]
  have srt: "sorted_wrt (<) cs"
    and mem: "\<And>l. l \<in> set cs \<longleftrightarrow> l < length row \<and> intersectionIsNotEmpty d (row ! l) \<and> wt ! l = m"
    by auto
  from c have "cs ! c \<in> set cs" by simp
  with mem have l: "cs ! c < length row" "intersectionIsNotEmpty d (row ! (cs ! c))" "wt ! (cs ! c) = m"
    by blast+
  have first: "cs ! c \<le> k"
    if "k < length row" "intersectionIsNotEmpty d (row ! k)" "isVNetOrdered rtr vn" "wt ! k = wt ! (cs ! c)" for k
  proof -
    from that l mem have "k \<in> set cs" by simp
    moreover from that have "c = 0" by (simp add: c_def)
    ultimately show ?thesis using sorted_wrt_less_nth0 [OF srt] by simp
  qed
  from vn l least first p show ?thesis
    unfolding row_def [symmetric] wt_def [symmetric] by blast
qed


lemma lookupRoutingTable_total:
  assumes vn: "0 \<le> vn" "vn < int (length (m_routing_table ru))"
    and cover: "length (m_routing_table ru ! nat vn) \<le> length (m_weight_table ru)"
    and cand: "j < length (m_routing_table ru ! nat vn)"
      "intersectionIsNotEmpty d (m_routing_table ru ! nat vn ! j)"
      "m_weight_table ru ! j \<le> INFINITE"
  shows "\<exists>p. lookupRoutingTable INFINITE rtr ru rnd vn d = Inr p"
proof -
  define row where "row = m_routing_table ru ! nat vn"
  define wt where "wt = m_weight_table ru"
  have cov: "\<forall>i<length row. intersectionIsNotEmpty d (row ! i) \<longrightarrow> 0 + i < length wt"
    using cover by (simp add: row_def wt_def)
  from find_min_weight_total [OF cov] obtain m where m: "find_min_weight d wt row 0 INFINITE = Inr m"
    by blast
  from collect_candidates_total [OF cov] obtain cs where cs: "collect_candidates d wt row 0 m = Inr cs"
    by blast
  from collect_candidates_Inr [OF cs]
  have mem: "\<And>l. l \<in> set cs \<longleftrightarrow> l < length row \<and> intersectionIsNotEmpty d (row ! l) \<and> wt ! l = m"
    by auto
  have j: "j < length row" "intersectionIsNotEmpty d (row ! j)" "wt ! j \<le> INFINITE"
    using cand by (simp_all add: row_def wt_def)
  from find_min_weight_Inr [OF m] j
  have le: "m \<le> wt ! j"
    and or: "m = INFINITE \<or> (\<exists>i<length row. intersectionIsNotEmpty d (row ! i) \<and> m = wt ! i)"
    by simp_all
  have "\<exists>i. i \<in> set cs"
  proof (cases "m = INFINITE")
    case True
    with le j have "wt ! j = m" by simp
    with j mem have "j \<in> set cs" by simp
    then show ?thesis ..
  next
    case False
    with or obtain i where "i < length row" "intersectionIsNotEmpty d (row ! i)" "m = wt ! i"
      by blast
    with mem have "i \<in> set cs" by simp
    then show ?thesis ..
  qed
  then have ne: "cs \<noteq> []" by auto
  then have "rnd mod length cs < length cs" by simp
  with ne vn m cs show ?thesis
    by (simp add: lookupRoutingTable_def Let_def row_def [symmetric] wt_def [symmetric])
qed

lemma lookupRoutingTable_NoRoute:
  assumes vn: "0 \<le> vn" "vn < int (length (m_routing_table ru))"
    and cover: "length (m_routing_table ru ! nat vn) \<le> length (m_weight_table ru)"
    and none: "\<forall>j<length (m_routing_table ru ! nat vn).
      intersectionIsNotEmpty d (m_routing_table ru ! nat vn ! j) \<longrightarrow> INFINITE < m_weight_table ru ! j"
  shows "lookupRoutingTable INFINITE rtr ru rnd vn d = Inl NoRouteExists"
proof -
  define row where "row = m_routing_table ru ! nat vn"
  define wt where "wt = m_weight_table ru"
  have cov: "\<forall>i<length row. intersectionIsNotEmpty d (row ! i) \<longrightarrow> 0 + i < length wt"
    using cover by (simp add: row_def wt_def)
  have none': "\<And>j. j < length row \<Longrightarrow> intersectionIsNotEmpty d (row ! j) \<Longrightarrow> INFINITE < wt ! j"
    using none by (simp add: row_def wt_def)
  from find_min_weight_total [OF cov] obtain m where m: "find_min_weight d wt row 0 INFINITE = Inr m"
    by blast
  from collect_candidates_total [OF cov] obtain cs where cs: "collect_candidates d wt row 0 m = Inr cs"
    by blast
  from collect_candidates_Inr [OF cs]
  have mem: "\<And>l. l \<in> set cs \<longleftrightarrow> l < length row \<and> intersectionIsNotEmpty d (row ! l) \<and> wt ! l = m"
    by auto
  from find_min_weight_Inr [OF m]
  have le: "m \<le> INFINITE" by simp
  have "l \<notin> set cs" for l
  proof
    assume "l \<in> set cs"
    with mem have "l < length row" "intersectionIsNotEmpty d (row ! l)" "wt ! l = m" by simp_all
    with none' [of l] le show False by simp
  qed
  then have "cs = []" by (cases cs) auto
  with vn m cs show ?thesis
    by (simp add: lookupRoutingTable_def Let_def row_def [symmetric] wt_def [symmetric])
qed

subsection \<open>The search for a wireless shortcut\<close>

lemma fold_min_Min: "fold min xs (a::int) = Min (insert a (set xs))"
  using Min.set_eq_fold [of a xs] by simp

lemma scan_connected_hops:
  "hybrid_hops (scan_connected num_cols dest_id connected c) =
     fold min (direct_wireless_costs num_cols dest_id connected) (hybrid_hops c)"
  by (induction connected arbitrary: c) (simp_all add: direct_wireless_costs_def Let_def min_def)

lemma scan_entry_hops:
  "hybrid_hops (scan_entry num_cols dest_id h1 hops_to connected c) =
     fold min (map (\<lambda>h2. hops_to + 1 + calculateHops num_cols h2 dest_id) connected) (hybrid_hops c)"
  by (induction connected arbitrary: c) (simp_all add: Let_def min_def)

lemma scan_entries_hops:
  "hybrid_hops (scan_entries num_cols my_id dest_id hc c) =
     fold min (single_wireless_costs num_cols my_id dest_id hc) (hybrid_hops c)"
  by (induction hc arbitrary: c) (simp_all add: single_wireless_costs_def Let_def scan_entry_hops)

lemma scan_entry_choice:
  "scan_entry num_cols dest_id h1 hops_to connected c = c \<or>
     (best_hybrid_router (scan_entry num_cols dest_id h1 hops_to connected c) = h1 \<and>
      dest_hybrid_router (scan_entry num_cols dest_id h1 hops_to connected c) \<in> set connected \<and>
      hybrid_hops (scan_entry num_cols dest_id h1 hops_to connected c) =
        hops_to + 1 + calculateHops num_cols
          (dest_hybrid_router (scan_entry num_cols dest_id h1 hops_to connected c)) dest_id)"
proof (induction connected arbitrary: c)
  case Nil
  then show ?case by simp
next
  case (Cons h2 rest)
  define c1 where "c1 = (if hops_to + 1 + calculateHops num_cols h2 dest_id < hybrid_hops c
            then \<lparr>hybrid_hops = hops_to + 1 + calculateHops num_cols h2 dest_id, best_hybrid_router = h1,
                  dest_hybrid_router = h2\<rparr>
            else c)"
  have step: "scan_entry num_cols dest_id h1 hops_to (h2 # rest) c = scan_entry num_cols dest_id h1 hops_to rest c1"
    by (simp add: c1_def Let_def)
  from Cons.IH [of c1] show ?case
    unfolding step by (auto simp: c1_def split: if_splits)
qed

lemma scan_entries_choice:
  "scan_entries num_cols my_id dest_id hc c = c \<or>
     (\<exists>connected. (best_hybrid_router (scan_entries num_cols my_id dest_id hc c), connected) \<in> set hc \<and>
        dest_hybrid_router (scan_entries num_cols my_id dest_id hc c) \<in> set connected \<and>
        hybrid_hops (scan_entries num_cols my_id dest_id hc c) =
          calculateHops num_cols my_id (best_hybrid_router (scan_entries num_cols my_id dest_id hc c)) + 1
          + calculateHops num_cols (dest_hybrid_router (scan_entries num_cols my_id dest_id hc c)) dest_id)"
proof (induction hc arbitrary: c)
  case Nil
  then show ?case by simp
next
  case (Cons entry rest)
  define c1 where "c1 = scan_entry num_cols dest_id (fst entry) (calculateHops num_cols my_id (fst entry)) (snd entry) c"
  have step: "scan_entries num_cols my_id dest_id (entry # rest) c = scan_entries num_cols my_id dest_id rest c1"
    by (simp add: c1_def Let_def)
  have c1: "c1 = c \<or> (best_hybrid_router c1 = fst entry \<and> dest_hybrid_router c1 \<in> set (snd entry) \<and>
      hybrid_hops c1 = calculateHops num_cols my_id (fst entry) + 1
        + calculateHops num_cols (dest_hybrid_router c1) dest_id)"
    unfolding c1_def by (rule scan_entry_choice)
  from Cons.IH [of c1] show ?case
  proof
    assume "scan_entries num_cols my_id dest_id rest c1 = c1"
    with c1 show ?thesis unfolding step
      by (cases entry) auto
  next
    assume "\<exists>connected. (best_hybrid_router (scan_entries num_cols my_id dest_id rest c1), connected) \<in> set rest \<and>
        dest_hybrid_router (scan_entries num_cols my_id dest_id rest c1) \<in> set connected \<and>
        hybrid_hops (scan_entries num_cols my_id dest_id rest c1) =
          calculateHops num_cols my_id (best_hybrid_router (scan_entries num_cols my_id dest_id rest c1)) + 1
          + calculateHops num_cols (dest_hybrid_router (scan_entries num_cols my_id dest_id rest c1)) dest_id"
    then show ?thesis unfolding step by auto
  qed
qed

lemma coords_determine_id:
  fixes a b n :: int
  assumes "a smod n = b smod n" "a sdiv n = b sdiv n"
  shows "a = b"
proof -
  have "a = a sdiv n * n + a smod n"
    by (rule sdiv_mult_smod_eq [symmetric])
  also have "\<dots> = b sdiv n * n + b smod n"
    by (simp only: assms)
  also have "\<dots> = b"
    by (rule sdiv_mult_smod_eq)
  finally show ?thesis .
qed

subsection \<open>Directions and the choice between the paths\<close>

lemma outportComputeCustom_cases:
  assumes "getNumCols rtr \<noteq> 0"
  shows "outportComputeCustom rtr ru route inport inport_dirn =
           (if hybrid_hops (hybridChoice rtr route) < xyHops rtr route
            then Inr (hybridPath rtr ru route)
            else wiredPath rtr ru route inport inport_dirn)"
  using assms
  by (simp add: outportComputeCustom_def Let_def xyHops_def hybridChoice_def hybridPath_def
      wiredPath_def split: prod.splits)

lemma xy_dirn_cases:
  assumes "getNumRows rtr > 0" and "getNumCols rtr > 0" and "get_id rtr \<noteq> dest_router route"
  shows "outportComputeXY_dirn rtr route inport_dirn =
     (if fst (coords (getNumCols rtr) (dest_router route)) \<noteq> fst (coords (getNumCols rtr) (get_id rtr)) then
        (if fst (coords (getNumCols rtr) (dest_router route)) \<ge> fst (coords (getNumCols rtr) (get_id rtr)) then
           (if inport_dirn = ''Local'' \<or> inport_dirn = ''West'' \<or> inport_dirn = ''Wireless_In''
            then Inr ''East'' else Inl AssertionFailed)
         else
           (if inport_dirn = ''Local'' \<or> inport_dirn = ''East'' \<or> inport_dirn = ''Wireless_In''
            then Inr ''West'' else Inl AssertionFailed))
      else
        (if snd (coords (getNumCols rtr) (dest_router route)) \<ge> snd (coords (getNumCols rtr) (get_id rtr)) then
           (if inport_dirn \<noteq> ''North'' then Inr ''North'' else Inl AssertionFailed)
         else
           (if inport_dirn \<noteq> ''South'' then Inr ''South'' else Inl AssertionFailed)))"
proof -
  have "\<not> (get_id rtr smod getNumCols rtr = dest_router route smod getNumCols rtr \<and>
            get_id rtr sdiv getNumCols rtr = dest_router route sdiv getNumCols rtr)"
    using coords_determine_id [of "get_id rtr" "getNumCols rtr" "dest_router route"] assms(3) by blast
  then show ?thesis
    using assms(1,2) unfolding outportComputeXY_dirn_def coords_def Let_def fst_conv snd_conv
    by (auto simp: abs_if)
qed

lemma xy_dirn_reduces:
  assumes "outportComputeXY_dirn rtr route inport_dirn = Inr dirn"
  shows "manhattan (move dirn (coords (getNumCols rtr) (get_id rtr))) (coords (getNumCols rtr) (dest_router route))
           = manhattan (coords (getNumCols rtr) (get_id rtr)) (coords (getNumCols rtr) (dest_router route)) - 1"
  using assms unfolding outportComputeXY_dirn_def coords_def Let_def manhattan_def move_def
  by (auto split: if_splits)

lemma hybrid_search_no_entry:
  assumes "my_id \<notin> fst ` set hc" and "at_hybrid_router my_id"
  shows "hybrid_search num_cols my_id dest_id hc = no_choice"
proof -
  from assms(1) have "map_of hc my_id = None"
    by (simp add: map_of_eq_None_iff)
  with assms(2) show ?thesis
    by (simp add: hybrid_search_def connections_of_def)
qed

lemma towards_reduces:
  assumes "p \<noteq> q"
  shows "manhattan (move (towards p q) p) q = manhattan p q - 1"
  using assms by (cases p; cases q) (auto simp: manhattan_def move_def towards_def)

lemma hybrid_dirn_towards:
  assumes "\<not> at_hybrid_router my_id" and "best_hybrid_router c \<noteq> my_id"
  shows "hybrid_dirn num_cols my_id c =
           (towards (coords num_cols my_id) (coords num_cols (best_hybrid_router c)),
            dest_hybrid_router c)"
proof -
  have "\<not> (best_hybrid_router c smod num_cols = my_id smod num_cols \<and>
            best_hybrid_router c sdiv num_cols = my_id sdiv num_cols)"
    using coords_determine_id [of "best_hybrid_router c" num_cols my_id] assms(2) by blast
  with assms(1) show ?thesis
    unfolding hybrid_dirn_def towards_def coords_def Let_def fst_conv snd_conv
    by auto
qed

section \<open>Properties\<close>

text \<open>
  C10. For every virtual network and every list \<open>sVnets\<close>, \<open>supportsVnet\<close> returns true
  if and only if the list is empty or the virtual network is one of its elements.
\<close>

theorem supportsVnet_iff:
  "supportsVnet vn sVnets \<longleftrightarrow> sVnets = [] \<or> vn \<in> set sVnets"
  by (auto simp: supportsVnet_def find_None_iff)

subsection \<open>The table lookup\<close>

text \<open>
  C4, amended. For every valid virtual-network row whose links the weight table covers,
  and every destination such that at least one link whose entry meets the destination
  has a weight of at most \<^verbatim>\<open>INFINITE_\<close>, the lookup returns a link whose entry meets
  the destination and whose weight is the least among all links whose entry meets the
  destination. This holds for an ordered and for an unordered virtual network, whatever
  \<^verbatim>\<open>rand()\<close> returns.
\<close>

theorem lookupRoutingTable_min_weight_port:
  assumes "0 \<le> vn" and "vn < int (length (m_routing_table ru))"
    and "length (m_routing_table ru ! nat vn) \<le> length (m_weight_table ru)"
    and "\<exists>j<length (m_routing_table ru ! nat vn).
           intersectionIsNotEmpty d (m_routing_table ru ! nat vn ! j) \<and>
           m_weight_table ru ! j \<le> INFINITE"
  shows "\<exists>l<length (m_routing_table ru ! nat vn).
           lookupRoutingTable INFINITE rtr ru rnd vn d = Inr (int l) \<and>
           intersectionIsNotEmpty d (m_routing_table ru ! nat vn ! l) \<and>
           (\<forall>k<length (m_routing_table ru ! nat vn).
              intersectionIsNotEmpty d (m_routing_table ru ! nat vn ! k) \<longrightarrow>
                m_weight_table ru ! l \<le> m_weight_table ru ! k)"
proof -
  from assms(4) obtain j where j: "j < length (m_routing_table ru ! nat vn)"
      "intersectionIsNotEmpty d (m_routing_table ru ! nat vn ! j)"
      "m_weight_table ru ! j \<le> INFINITE"
    by blast
  from lookupRoutingTable_total [OF assms(1-3) j]
  obtain p where p: "lookupRoutingTable INFINITE rtr ru rnd vn d = Inr p"
    by blast
  from lookupRoutingTable_Inr [OF p] show ?thesis
    unfolding p by blast
qed

text \<open>An instance: two links of weights 2 and 1, both for destination 1.\<close>

theorem lookupRoutingTable_min_weight_port_witness:
  "(0::int) \<le> 1 \<and> 1 < int (length (m_routing_table (two_links 2 1))) \<and>
   length (m_routing_table (two_links 2 1) ! nat 1) \<le> length (m_weight_table (two_links 2 1)) \<and>
   (\<exists>j<length (m_routing_table (two_links 2 1) ! nat 1).
      intersectionIsNotEmpty {1} (m_routing_table (two_links 2 1) ! nat 1 ! j) \<and>
      m_weight_table (two_links 2 1) ! j \<le> 10000) \<and>
   (\<exists>l<length (m_routing_table (two_links 2 1) ! nat 1).
      lookupRoutingTable 10000 (mesh_router 0 []) (two_links 2 1) 7 1 {1} = Inr (int l) \<and>
      intersectionIsNotEmpty {1} (m_routing_table (two_links 2 1) ! nat 1 ! l) \<and>
      (\<forall>k<length (m_routing_table (two_links 2 1) ! nat 1).
         intersectionIsNotEmpty {1} (m_routing_table (two_links 2 1) ! nat 1 ! k) \<longrightarrow>
           m_weight_table (two_links 2 1) ! l \<le> m_weight_table (two_links 2 1) ! k))"
proof -
  have tab: "m_routing_table (two_links 2 1) = [[{0, 1}, {1, 2}], [{0, 1}, {1, 2}]]"
    and wt: "m_weight_table (two_links 2 1) = [2, 1]"
    by (simp_all add: two_links_def addWeight_def addRoute_def RoutingUnit_init_def)
  have h1: "(0::int) \<le> 1" by simp
  have h2: "1 < int (length (m_routing_table (two_links 2 1)))" by (simp add: tab)
  have h3: "length (m_routing_table (two_links 2 1) ! nat 1) \<le> length (m_weight_table (two_links 2 1))"
    by (simp add: tab wt)
  have "intersectionIsNotEmpty {1} (m_routing_table (two_links 2 1) ! nat 1 ! 0) \<and>
      m_weight_table (two_links 2 1) ! 0 \<le> 10000"
    by (simp add: tab wt intersectionIsNotEmpty_def)
  then have h4: "\<exists>j<length (m_routing_table (two_links 2 1) ! nat 1).
      intersectionIsNotEmpty {1} (m_routing_table (two_links 2 1) ! nat 1 ! j) \<and>
      m_weight_table (two_links 2 1) ! j \<le> 10000"
    by (intro exI [of _ 0]) (simp add: tab)
  from lookupRoutingTable_min_weight_port [OF h1 h2 h3 h4, of "mesh_router 0 []" 7] h1 h2 h3 h4
  show ?thesis by blast
qed

text \<open>
  C4 as stated fails where the links for the destination weigh more than
  \<^verbatim>\<open>INFINITE_\<close> (10000 in Garnet): link 0 is for destination 1, the weight table
  covers the row, and the lookup ends with the fatal error.
\<close>

theorem lookupRoutingTable_min_weight_port_counterexample:
  "(0::int) \<le> 0 \<and> 0 < int (length (m_routing_table (two_links 10001 10002))) \<and>
   length (m_routing_table (two_links 10001 10002) ! nat 0)
     \<le> length (m_weight_table (two_links 10001 10002)) \<and>
   intersectionIsNotEmpty {1} (m_routing_table (two_links 10001 10002) ! nat 0 ! 0) \<and>
   lookupRoutingTable 10000 (mesh_router 0 []) (two_links 10001 10002) 7 0 {1} = Inl NoRouteExists"
  by code_simp

text \<open>
  C5, amended. For a valid virtual-network row whose links the weight table covers, the
  lookup ends with the fatal error exactly when every link whose entry meets the
  destination has a weight above \<^verbatim>\<open>INFINITE_\<close>; in particular it does when no entry
  meets the destination.
\<close>

theorem lookupRoutingTable_NoRouteExists_iff:
  assumes "0 \<le> vn" and "vn < int (length (m_routing_table ru))"
    and "length (m_routing_table ru ! nat vn) \<le> length (m_weight_table ru)"
  shows "lookupRoutingTable INFINITE rtr ru rnd vn d = Inl NoRouteExists \<longleftrightarrow>
           (\<forall>j<length (m_routing_table ru ! nat vn).
              intersectionIsNotEmpty d (m_routing_table ru ! nat vn ! j) \<longrightarrow>
                INFINITE < m_weight_table ru ! j)"
proof
  assume abort: "lookupRoutingTable INFINITE rtr ru rnd vn d = Inl NoRouteExists"
  show "\<forall>j<length (m_routing_table ru ! nat vn).
          intersectionIsNotEmpty d (m_routing_table ru ! nat vn ! j) \<longrightarrow>
            INFINITE < m_weight_table ru ! j"
  proof (intro allI impI)
    fix j
    assume j: "j < length (m_routing_table ru ! nat vn)"
      "intersectionIsNotEmpty d (m_routing_table ru ! nat vn ! j)"
    show "INFINITE < m_weight_table ru ! j"
    proof (rule ccontr)
      assume "\<not> INFINITE < m_weight_table ru ! j"
      then have "m_weight_table ru ! j \<le> INFINITE" by simp
      from lookupRoutingTable_total [OF assms j this, of rtr rnd] abort
      show False by auto
    qed
  qed
next
  assume "\<forall>j<length (m_routing_table ru ! nat vn).
            intersectionIsNotEmpty d (m_routing_table ru ! nat vn ! j) \<longrightarrow>
              INFINITE < m_weight_table ru ! j"
  with assms show "lookupRoutingTable INFINITE rtr ru rnd vn d = Inl NoRouteExists"
    by (rule lookupRoutingTable_NoRoute)
qed

text \<open>An instance: no link of the table is for destination 5.\<close>

theorem lookupRoutingTable_NoRouteExists_iff_witness:
  "(0::int) \<le> 0 \<and> 0 < int (length (m_routing_table (two_links 2 1))) \<and>
   length (m_routing_table (two_links 2 1) ! nat 0) \<le> length (m_weight_table (two_links 2 1)) \<and>
   lookupRoutingTable 10000 (mesh_router 0 []) (two_links 2 1) 7 0 {5} = Inl NoRouteExists"
proof -
  have tab: "m_routing_table (two_links 2 1) = [[{0, 1}, {1, 2}], [{0, 1}, {1, 2}]]"
    and wt: "m_weight_table (two_links 2 1) = [2, 1]"
    by (simp_all add: two_links_def addWeight_def addRoute_def RoutingUnit_init_def)
  have h1: "(0::int) \<le> 0" by simp
  have h2: "0 < int (length (m_routing_table (two_links 2 1)))" by (simp add: tab)
  have h3: "length (m_routing_table (two_links 2 1) ! nat 0) \<le> length (m_weight_table (two_links 2 1))"
    by (simp add: tab wt)
  have none: "\<forall>j<length (m_routing_table (two_links 2 1) ! nat 0).
      intersectionIsNotEmpty {5} (m_routing_table (two_links 2 1) ! nat 0 ! j) \<longrightarrow>
        10000 < m_weight_table (two_links 2 1) ! j"
    by (simp add: tab intersectionIsNotEmpty_def nth_Cons')
  from lookupRoutingTable_NoRouteExists_iff [OF h1 h2 h3, of 10000 "mesh_router 0 []" 7 "{5}"] none
  have "lookupRoutingTable 10000 (mesh_router 0 []) (two_links 2 1) 7 0 {5} = Inl NoRouteExists"
    by blast
  with h1 h2 h3 show ?thesis by blast
qed

text \<open>
  C5 as stated fails in the same way: link 0 is for destination 0, yet its weight of
  20000 is above \<^verbatim>\<open>INFINITE_\<close> and the lookup ends with the fatal error.
\<close>

theorem lookupRoutingTable_NoRouteExists_counterexample:
  "(0::int) \<le> 0 \<and> 0 < int (length (m_routing_table (two_links 20000 1))) \<and>
   length (m_routing_table (two_links 20000 1) ! nat 0)
     \<le> length (m_weight_table (two_links 20000 1)) \<and>
   intersectionIsNotEmpty {0} (m_routing_table (two_links 20000 1) ! nat 0 ! 0) \<and>
   lookupRoutingTable 10000 (mesh_router 0 []) (two_links 20000 1) 7 0 {0} = Inl NoRouteExists"
  by code_simp

text \<open>
  C6. On an ordered virtual network the result of the lookup does not depend on the
  value of \<^verbatim>\<open>rand()\<close>, so two calls with the same virtual network and destination
  on the same tables agree; and a link that is returned is the first link, in table
  order, of least weight among the links whose entry meets the destination.
\<close>

theorem lookupRoutingTable_ordered_deterministic:
  assumes "isVNetOrdered rtr vn"
  shows "lookupRoutingTable INFINITE rtr ru rnd vn d = lookupRoutingTable INFINITE rtr ru rnd' vn d \<and>
         (\<forall>p. lookupRoutingTable INFINITE rtr ru rnd vn d = Inr p \<longrightarrow>
            (\<exists>l<length (m_routing_table ru ! nat vn).
               p = int l \<and> intersectionIsNotEmpty d (m_routing_table ru ! nat vn ! l) \<and>
               (\<forall>k<length (m_routing_table ru ! nat vn).
                  intersectionIsNotEmpty d (m_routing_table ru ! nat vn ! k) \<longrightarrow>
                    m_weight_table ru ! l \<le> m_weight_table ru ! k \<and>
                    (m_weight_table ru ! k = m_weight_table ru ! l \<longrightarrow> l \<le> k))))"
proof
  show "lookupRoutingTable INFINITE rtr ru rnd vn d = lookupRoutingTable INFINITE rtr ru rnd' vn d"
    using assms by (simp add: lookupRoutingTable_def Let_def split: sum.splits)
next
  show "\<forall>p. lookupRoutingTable INFINITE rtr ru rnd vn d = Inr p \<longrightarrow>
            (\<exists>l<length (m_routing_table ru ! nat vn).
               p = int l \<and> intersectionIsNotEmpty d (m_routing_table ru ! nat vn ! l) \<and>
               (\<forall>k<length (m_routing_table ru ! nat vn).
                  intersectionIsNotEmpty d (m_routing_table ru ! nat vn ! k) \<longrightarrow>
                    m_weight_table ru ! l \<le> m_weight_table ru ! k \<and>
                    (m_weight_table ru ! k = m_weight_table ru ! l \<longrightarrow> l \<le> k)))"
  proof (intro allI impI)
    fix p
    assume "lookupRoutingTable INFINITE rtr ru rnd vn d = Inr p"
    from lookupRoutingTable_Inr [OF this] assms
    show "\<exists>l<length (m_routing_table ru ! nat vn).
               p = int l \<and> intersectionIsNotEmpty d (m_routing_table ru ! nat vn ! l) \<and>
               (\<forall>k<length (m_routing_table ru ! nat vn).
                  intersectionIsNotEmpty d (m_routing_table ru ! nat vn ! k) \<longrightarrow>
                    m_weight_table ru ! l \<le> m_weight_table ru ! k \<and>
                    (m_weight_table ru ! k = m_weight_table ru ! l \<longrightarrow> l \<le> k))"
      by blast
  qed
qed

text \<open>An instance: two links of weight 1, both for destination 1; the first is taken.\<close>

theorem lookupRoutingTable_ordered_deterministic_witness:
  "isVNetOrdered (mesh_router 0 []) 0 \<and>
   lookupRoutingTable 10000 (mesh_router 0 []) (two_links 1 1) 0 0 {1} = Inr 0 \<and>
   lookupRoutingTable 10000 (mesh_router 0 []) (two_links 1 1) 1 0 {1} = Inr 0"
proof -
  have h: "isVNetOrdered (mesh_router 0 []) 0" by (simp add: mesh_router_def)
  have r: "lookupRoutingTable 10000 (mesh_router 0 []) (two_links 1 1) 0 0 {1} = Inr 0"
    by code_simp
  from lookupRoutingTable_ordered_deterministic [OF h, of 10000 "two_links 1 1" 0 "{1}" 1] h r
  show ?thesis by simp
qed

subsection \<open>Dimension-order routing\<close>

text \<open>
  C7, amended. For every mesh with \<open>numRows > 0\<close> and \<open>numCols > 0\<close>, every pair of
  distinct current and destination router ids, and every inbound direction that passes
  the assertion against a U-turn, \<^verbatim>\<open>outportComputeXY\<close> chooses a move along one axis
  towards the destination: horizontal whenever the columns differ (East if the
  destination column is at least the own column, else West), otherwise vertical (North
  if the destination row is at least the own row, else South); the move brings the
  Manhattan distance to the destination down by exactly 1, and the port returned is the
  one that the direction resolves to. For any other inbound direction the call ends on
  the failed assertion.
\<close>

theorem outportComputeXY_dirn_move:
  assumes "getNumRows rtr > 0" and "getNumCols rtr > 0" and "get_id rtr \<noteq> dest_router route"
  shows "outportComputeXY_dirn rtr route inport_dirn =
     (if fst (coords (getNumCols rtr) (dest_router route)) \<noteq> fst (coords (getNumCols rtr) (get_id rtr)) then
        (if fst (coords (getNumCols rtr) (dest_router route)) \<ge> fst (coords (getNumCols rtr) (get_id rtr)) then
           (if inport_dirn = ''Local'' \<or> inport_dirn = ''West'' \<or> inport_dirn = ''Wireless_In''
            then Inr ''East'' else Inl AssertionFailed)
         else
           (if inport_dirn = ''Local'' \<or> inport_dirn = ''East'' \<or> inport_dirn = ''Wireless_In''
            then Inr ''West'' else Inl AssertionFailed))
      else
        (if snd (coords (getNumCols rtr) (dest_router route)) \<ge> snd (coords (getNumCols rtr) (get_id rtr)) then
           (if inport_dirn \<noteq> ''North'' then Inr ''North'' else Inl AssertionFailed)
         else
           (if inport_dirn \<noteq> ''South'' then Inr ''South'' else Inl AssertionFailed))) \<and>
     (\<forall>dirn. outportComputeXY_dirn rtr route inport_dirn = Inr dirn \<longrightarrow>
        manhattan (move dirn (coords (getNumCols rtr) (get_id rtr)))
            (coords (getNumCols rtr) (dest_router route))
          = manhattan (coords (getNumCols rtr) (get_id rtr))
              (coords (getNumCols rtr) (dest_router route)) - 1) \<and>
     outportComputeXY rtr ru route inport inport_dirn =
       (case outportComputeXY_dirn rtr route inport_dirn of
          Inl err \<Rightarrow> Inl err
        | Inr dirn \<Rightarrow> Inr (resolve_outport ru dirn))"
  using xy_dirn_cases [OF assms] xy_dirn_reduces
  by (simp add: outportComputeXY_def)

text \<open>An instance: from router 0 to router 9, for a packet injected here.\<close>

theorem outportComputeXY_dirn_move_witness:
  "getNumRows (mesh_router 0 []) > 0 \<and> getNumCols (mesh_router 0 []) > 0 \<and>
   get_id (mesh_router 0 []) \<noteq> dest_router (route_to 9) \<and>
   outportComputeXY_dirn (mesh_router 0 []) (route_to 9) ''Local'' = Inr ''East'' \<and>
   manhattan (move ''East'' (coords 8 0)) (coords 8 9) = manhattan (coords 8 0) (coords 8 9) - 1"
proof -
  have h1: "getNumRows (mesh_router 0 []) > 0" and h2: "getNumCols (mesh_router 0 []) > 0"
    and h3: "get_id (mesh_router 0 []) \<noteq> dest_router (route_to 9)"
    by (simp_all add: mesh_router_def route_to_def)
  have e: "outportComputeXY_dirn (mesh_router 0 []) (route_to 9) ''Local'' = Inr ''East''"
    by code_simp
  have c: "getNumCols (mesh_router 0 []) = 8" "get_id (mesh_router 0 []) = 0"
    "dest_router (route_to 9) = 9"
    by (simp_all add: mesh_router_def route_to_def)
  from outportComputeXY_dirn_move [OF h1 h2 h3, of "''Local''"] e
  have "manhattan (move ''East'' (coords 8 0)) (coords 8 9) = manhattan (coords 8 0) (coords 8 9) - 1"
    unfolding c by blast
  with h1 h2 h3 e show ?thesis by blast
qed

text \<open>
  C7 as stated fails for a packet that came in through the East port and has to go
  East: the assertion fails and no move is chosen.
\<close>

theorem outportComputeXY_dirn_move_counterexample:
  "getNumRows (mesh_router 0 []) > 0 \<and> getNumCols (mesh_router 0 []) > 0 \<and>
   get_id (mesh_router 0 []) \<noteq> dest_router (route_to 1) \<and>
   outportComputeXY_dirn (mesh_router 0 []) (route_to 1) ''East'' = Inl AssertionFailed \<and>
   outportComputeXY (mesh_router 0 []) mesh_unit (route_to 1) 2 ''East'' = Inl AssertionFailed"
proof -
  have "outportComputeXY_dirn (mesh_router 0 []) (route_to 1) ''East'' = Inl AssertionFailed"
    by code_simp
  then show ?thesis
    by (simp add: outportComputeXY_def mesh_router_def route_to_def)
qed

subsection \<open>The choice between the wired and the wireless path\<close>

text \<open>
  C8. In every call of \<^verbatim>\<open>outportComputeCustom\<close> (with a number of columns other
  than 0, without which no hop count is computed): if \<open>hybridHops < xyHops\<close> the
  wireless path is used; otherwise, also when the two are equal, the result is the port
  that \<^verbatim>\<open>outportComputeXY\<close> chooses, together with -1.
\<close>

theorem outportComputeCustom_decision:
  assumes "getNumCols rtr \<noteq> 0"
  shows "(hybrid_hops (hybridChoice rtr route) < xyHops rtr route \<longrightarrow>
            outportComputeCustom rtr ru route inport inport_dirn = Inr (hybridPath rtr ru route)) \<and>
         (xyHops rtr route \<le> hybrid_hops (hybridChoice rtr route) \<longrightarrow>
            outportComputeCustom rtr ru route inport inport_dirn =
              (case outportComputeXY rtr ru route inport inport_dirn of
                 Inl err \<Rightarrow> Inl err
               | Inr (idx, ru') \<Rightarrow> Inr ((idx, -1), ru')))"
  using outportComputeCustom_cases [OF assms] by (simp add: wiredPath_def)

text \<open>
  An instance: at router 18, for router 20, both paths have 2 hops, and the wired one
  is taken, through the East port.
\<close>

theorem outportComputeCustom_decision_witness:
  "getNumCols (mesh_router 18 four_hubs) \<noteq> 0 \<and>
   xyHops (mesh_router 18 four_hubs) (route_to 20) = 2 \<and>
   hybrid_hops (hybridChoice (mesh_router 18 four_hubs) (route_to 20)) = 2 \<and>
   outportComputeCustom (mesh_router 18 four_hubs) mesh_unit (route_to 20) 0 ''Local'' =
     (case outportComputeXY (mesh_router 18 four_hubs) mesh_unit (route_to 20) 0 ''Local'' of
        Inl err \<Rightarrow> Inl err
      | Inr (idx, ru') \<Rightarrow> Inr ((idx, -1), ru')) \<and>
   map_sum id fst (outportComputeXY (mesh_router 18 four_hubs) mesh_unit (route_to 20) 0 ''Local'') = Inr 1"
proof -
  have h: "getNumCols (mesh_router 18 four_hubs) \<noteq> 0" by (simp add: mesh_router_def)
  have xy: "xyHops (mesh_router 18 four_hubs) (route_to 20) = 2" by code_simp
  have hy: "hybrid_hops (hybridChoice (mesh_router 18 four_hubs) (route_to 20)) = 2" by code_simp
  have p: "map_sum id fst (outportComputeXY (mesh_router 18 four_hubs) mesh_unit (route_to 20) 0 ''Local'') = Inr 1"
    by code_simp
  from outportComputeCustom_decision [OF h, of "route_to 20" mesh_unit 0 "''Local''"] xy hy
  have "outportComputeCustom (mesh_router 18 four_hubs) mesh_unit (route_to 20) 0 ''Local'' =
     (case outportComputeXY (mesh_router 18 four_hubs) mesh_unit (route_to 20) 0 ''Local'' of
        Inl err \<Rightarrow> Inl err
      | Inr (idx, ru') \<Rightarrow> Inr ((idx, -1), ru'))"
    by simp
  with h xy hy p show ?thesis by blast
qed

text \<open>
  C9. In every call at a router that is not a key of the configured map and for which
  the wireless path is selected, the port returned is the one that the single step
  towards the chosen router \<open>h1\<close> resolves to, a horizontal step whenever the columns
  differ and a vertical one only when they are equal; the step brings the distance to
  \<open>h1\<close> down by 1; the pair \<open>(h1, h2)\<close> is a connection of the map with the least hop
  count of all; and the router returned with the port is \<open>h2\<close>, never -1. (The router
  ids of the map are not negative, and \<open>xyHops\<close> is a value of type \<^verbatim>\<open>int\<close>.)
\<close>

theorem hybrid_path_towards_hub:
  assumes nc: "getNumCols rtr \<noteq> 0"
    and nonhub: "get_id rtr \<notin> fst ` set (get_hybrid_connections rtr)"
    and ids: "\<forall>entry\<in>set (get_hybrid_connections rtr). \<forall>h2\<in>set (snd entry). 0 \<le> h2"
    and int: "xyHops rtr route \<le> INT_MAX"
    and sel: "hybrid_hops (hybridChoice rtr route) < xyHops rtr route"
  shows "outportComputeCustom rtr ru route inport inport_dirn =
           Inr ((fst (resolve_outport ru
                   (towards (coords (getNumCols rtr) (get_id rtr))
                      (coords (getNumCols rtr) (best_hybrid_router (hybridChoice rtr route))))),
                 dest_hybrid_router (hybridChoice rtr route)),
                snd (resolve_outport ru
                   (towards (coords (getNumCols rtr) (get_id rtr))
                      (coords (getNumCols rtr) (best_hybrid_router (hybridChoice rtr route)))))) \<and>
         manhattan
             (move (towards (coords (getNumCols rtr) (get_id rtr))
                      (coords (getNumCols rtr) (best_hybrid_router (hybridChoice rtr route))))
                (coords (getNumCols rtr) (get_id rtr)))
             (coords (getNumCols rtr) (best_hybrid_router (hybridChoice rtr route)))
           = manhattan (coords (getNumCols rtr) (get_id rtr))
               (coords (getNumCols rtr) (best_hybrid_router (hybridChoice rtr route))) - 1 \<and>
         (\<exists>connected. (best_hybrid_router (hybridChoice rtr route), connected)
                         \<in> set (get_hybrid_connections rtr) \<and>
            dest_hybrid_router (hybridChoice rtr route) \<in> set connected) \<and>
         hybrid_hops (hybridChoice rtr route) =
           calculateHops (getNumCols rtr) (get_id rtr) (best_hybrid_router (hybridChoice rtr route)) + 1
           + calculateHops (getNumCols rtr) (dest_hybrid_router (hybridChoice rtr route)) (dest_router route) \<and>
         hybrid_hops (hybridChoice rtr route) =
           Min (set (single_wireless_costs (getNumCols rtr) (get_id rtr) (dest_router route)
                  (get_hybrid_connections rtr))) \<and>
         dest_hybrid_router (hybridChoice rtr route) \<noteq> -1"
proof -
  define num_cols where "num_cols = getNumCols rtr"
  define my_id where "my_id = get_id rtr"
  define dest_id where "dest_id = dest_router route"
  define hc where "hc = get_hybrid_connections rtr"
  define c where "c = hybridChoice rtr route"
  have c_search: "c = hybrid_search num_cols my_id dest_id hc"
    by (simp add: c_def hybridChoice_def num_cols_def my_id_def dest_id_def hc_def)
  from sel int have below: "hybrid_hops c < INT_MAX"
    by (simp add: c_def)
  then have chosen: "c \<noteq> no_choice"
    by (auto simp: no_choice_def)
  have wired: "\<not> at_hybrid_router my_id"
  proof
    assume "at_hybrid_router my_id"
    with nonhub have "c = no_choice"
      unfolding c_search my_id_def hc_def by (intro hybrid_search_no_entry)
    with chosen show False by simp
  qed
  then have c_scan: "c = scan_entries num_cols my_id dest_id hc no_choice"
    by (simp add: c_search hybrid_search_def)
  from scan_entries_choice [of num_cols my_id dest_id hc no_choice] chosen
  obtain connected where pair: "(best_hybrid_router c, connected) \<in> set hc"
      "dest_hybrid_router c \<in> set connected"
    and cost: "hybrid_hops c = calculateHops num_cols my_id (best_hybrid_router c) + 1
                 + calculateHops num_cols (dest_hybrid_router c) dest_id"
    unfolding c_scan [symmetric] by blast
  from pair(1) have "best_hybrid_router c \<in> fst ` set hc"
    by force
  with nonhub have other: "best_hybrid_router c \<noteq> my_id"
    unfolding my_id_def hc_def by metis
  have dirn: "hybrid_dirn num_cols my_id c =
      (towards (coords num_cols my_id) (coords num_cols (best_hybrid_router c)), dest_hybrid_router c)"
    using wired other by (rule hybrid_dirn_towards)
  have apart: "coords num_cols my_id \<noteq> coords num_cols (best_hybrid_router c)"
    using coords_determine_id [of "best_hybrid_router c" num_cols my_id] other
    by (auto simp: coords_def)
  have result: "outportComputeCustom rtr ru route inport inport_dirn =
      Inr ((fst (resolve_outport ru (towards (coords num_cols my_id) (coords num_cols (best_hybrid_router c)))),
            dest_hybrid_router c),
           snd (resolve_outport ru (towards (coords num_cols my_id) (coords num_cols (best_hybrid_router c)))))"
    using outportComputeCustom_cases [OF nc, of ru route inport inport_dirn] sel dirn
    by (simp add: hybridPath_def Let_def c_def [symmetric] num_cols_def [symmetric] my_id_def [symmetric])
  have least: "hybrid_hops c = Min (set (single_wireless_costs num_cols my_id dest_id hc))"
  proof -
    have eq: "hybrid_hops c = Min (insert INT_MAX (set (single_wireless_costs num_cols my_id dest_id hc)))"
      by (simp add: c_scan scan_entries_hops fold_min_Min no_choice_def)
    show ?thesis
    proof (cases "set (single_wireless_costs num_cols my_id dest_id hc) = {}")
      case True
      with eq below show ?thesis by simp
    next
      case False
      with eq below show ?thesis by (simp add: min_def split: if_splits)
    qed
  qed
  from ids pair have "0 \<le> dest_hybrid_router c"
    unfolding hc_def by force
  then have "dest_hybrid_router c \<noteq> -1" by simp
  with result towards_reduces [OF apart] pair cost least show ?thesis
    unfolding c_def num_cols_def my_id_def dest_id_def hc_def by blast
qed

text \<open>
  An instance: router 0 of the mesh with the four hybrid routers, for router 63: East
  towards router 18, which sends to router 45.
\<close>

theorem hybrid_path_towards_hub_witness:
  "getNumCols (mesh_router 0 four_hubs) \<noteq> 0 \<and>
   get_id (mesh_router 0 four_hubs) \<notin> fst ` set (get_hybrid_connections (mesh_router 0 four_hubs)) \<and>
   xyHops (mesh_router 0 four_hubs) (route_to 63) \<le> INT_MAX \<and>
   hybrid_hops (hybridChoice (mesh_router 0 four_hubs) (route_to 63))
     < xyHops (mesh_router 0 four_hubs) (route_to 63) \<and>
   best_hybrid_router (hybridChoice (mesh_router 0 four_hubs) (route_to 63)) = 18 \<and>
   towards (coords 8 0) (coords 8 18) = ''East'' \<and>
   outportComputeCustom (mesh_router 0 four_hubs) mesh_unit (route_to 63) 0 ''Local'' =
     Inr ((fst (resolve_outport mesh_unit ''East''), 45), snd (resolve_outport mesh_unit ''East'')) \<and>
   fst (resolve_outport mesh_unit ''East'') = 1"
proof -
  have h1: "getNumCols (mesh_router 0 four_hubs) \<noteq> 0"
    by (simp add: mesh_router_def)
  have h2: "get_id (mesh_router 0 four_hubs) \<notin> fst ` set (get_hybrid_connections (mesh_router 0 four_hubs))"
    by (simp add: mesh_router_def four_hubs_def)
  have h3: "\<forall>entry\<in>set (get_hybrid_connections (mesh_router 0 four_hubs)). \<forall>h2\<in>set (snd entry). 0 \<le> h2"
    by (simp add: mesh_router_def four_hubs_def)
  have h4: "xyHops (mesh_router 0 four_hubs) (route_to 63) \<le> INT_MAX"
    by code_simp
  have h5: "hybrid_hops (hybridChoice (mesh_router 0 four_hubs) (route_to 63))
     < xyHops (mesh_router 0 four_hubs) (route_to 63)"
    by code_simp
  have c: "hybridChoice (mesh_router 0 four_hubs) (route_to 63) =
      \<lparr>hybrid_hops = 9, best_hybrid_router = 18, dest_hybrid_router = 45\<rparr>"
    by code_simp
  have t: "towards (coords 8 0) (coords 8 18) = ''East''"
    by code_simp
  have p: "fst (resolve_outport mesh_unit ''East'') = 1"
    by code_simp
  have g: "getNumCols (mesh_router 0 four_hubs) = 8" "get_id (mesh_router 0 four_hubs) = 0"
    by (simp_all add: mesh_router_def)
  from hybrid_path_towards_hub [OF h1 h2 h3 h4 h5, of mesh_unit 0 "''Local''"]
  have "outportComputeCustom (mesh_router 0 four_hubs) mesh_unit (route_to 63) 0 ''Local'' =
     Inr ((fst (resolve_outport mesh_unit ''East''), 45), snd (resolve_outport mesh_unit ''East''))"
    unfolding c g by (simp add: t)
  with h1 h2 h4 h5 c t p show ?thesis by simp
qed

subsection \<open>Directions without a port\<close>

text \<open>
  C1, amended. In a routing call whose direction has no port in
  \<^verbatim>\<open>m_outports_dirn2idx\<close> the simulation is not halted: the call returns port 0, with
  the router of the wireless path where that path is taken, and the map gains the
  direction with port 0.
\<close>

theorem unregistered_direction_port_0:
  "(outportComputeXY_dirn rtr route inport_dirn = Inr dirn \<and> m_outports_dirn2idx ru dirn = None \<longrightarrow>
      outportComputeXY rtr ru route inport inport_dirn =
        Inr (0, ru\<lparr>m_outports_dirn2idx := (m_outports_dirn2idx ru)(dirn \<mapsto> 0)\<rparr>)) \<and>
   (getNumCols rtr \<noteq> 0 \<and> hybrid_hops (hybridChoice rtr route) < xyHops rtr route \<and>
    hybrid_dirn (getNumCols rtr) (get_id rtr) (hybridChoice rtr route) = (dirn', hub) \<and>
    m_outports_dirn2idx ru dirn' = None \<longrightarrow>
      outportComputeCustom rtr ru route inport inport_dirn =
        Inr ((0, hub), ru\<lparr>m_outports_dirn2idx := (m_outports_dirn2idx ru)(dirn' \<mapsto> 0)\<rparr>))"
proof (intro conjI impI)
  assume "outportComputeXY_dirn rtr route inport_dirn = Inr dirn \<and> m_outports_dirn2idx ru dirn = None"
  then show "outportComputeXY rtr ru route inport inport_dirn =
        Inr (0, ru\<lparr>m_outports_dirn2idx := (m_outports_dirn2idx ru)(dirn \<mapsto> 0)\<rparr>)"
    by (simp add: outportComputeXY_def resolve_outport_def dirn2idx_index_def)
next
  assume a: "getNumCols rtr \<noteq> 0 \<and> hybrid_hops (hybridChoice rtr route) < xyHops rtr route \<and>
    hybrid_dirn (getNumCols rtr) (get_id rtr) (hybridChoice rtr route) = (dirn', hub) \<and>
    m_outports_dirn2idx ru dirn' = None"
  then have "getNumCols rtr \<noteq> 0" by simp
  from outportComputeCustom_cases [OF this, of ru route inport inport_dirn] a
  show "outportComputeCustom rtr ru route inport inport_dirn =
        Inr ((0, hub), ru\<lparr>m_outports_dirn2idx := (m_outports_dirn2idx ru)(dirn' \<mapsto> 0)\<rparr>)"
    by (simp add: hybridPath_def Let_def resolve_outport_def dirn2idx_index_def)
qed

text \<open>
  An instance of each part: a routing unit without any direction, going North, and
  router 21 without a port for the wireless link to router 50.
\<close>

theorem unregistered_direction_port_0_witness:
  "outportComputeXY_dirn (mesh_router 0 []) (route_to 8) ''Local'' = Inr ''North'' \<and>
   m_outports_dirn2idx RoutingUnit_init ''North'' = None \<and>
   outportComputeXY (mesh_router 0 []) RoutingUnit_init (route_to 8) 0 ''Local'' =
     Inr (0, RoutingUnit_init\<lparr>m_outports_dirn2idx := (m_outports_dirn2idx RoutingUnit_init)(''North'' \<mapsto> 0)\<rparr>) \<and>
   getNumCols (mesh_router 21 four_hubs) \<noteq> 0 \<and>
   hybrid_hops (hybridChoice (mesh_router 21 four_hubs) (route_to 48))
     < xyHops (mesh_router 21 four_hubs) (route_to 48) \<and>
   hybrid_dirn (getNumCols (mesh_router 21 four_hubs)) (get_id (mesh_router 21 four_hubs))
     (hybridChoice (mesh_router 21 four_hubs) (route_to 48)) = (''Wireless_Out50'', 50) \<and>
   m_outports_dirn2idx mesh_unit ''Wireless_Out50'' = None \<and>
   outportComputeCustom (mesh_router 21 four_hubs) mesh_unit (route_to 48) 0 ''Local'' =
     Inr ((0, 50), mesh_unit\<lparr>m_outports_dirn2idx := (m_outports_dirn2idx mesh_unit)(''Wireless_Out50'' \<mapsto> 0)\<rparr>)"
proof -
  have a1: "outportComputeXY_dirn (mesh_router 0 []) (route_to 8) ''Local'' = Inr ''North''"
    by code_simp
  have a2: "m_outports_dirn2idx RoutingUnit_init ''North'' = None"
    by (simp add: RoutingUnit_init_def)
  have b1: "getNumCols (mesh_router 21 four_hubs) \<noteq> 0"
    by (simp add: mesh_router_def)
  have b2: "hybrid_hops (hybridChoice (mesh_router 21 four_hubs) (route_to 48))
     < xyHops (mesh_router 21 four_hubs) (route_to 48)"
    by code_simp
  have b3: "hybrid_dirn (getNumCols (mesh_router 21 four_hubs)) (get_id (mesh_router 21 four_hubs))
     (hybridChoice (mesh_router 21 four_hubs) (route_to 48)) = (''Wireless_Out50'', 50)"
    by code_simp
  have b4: "m_outports_dirn2idx mesh_unit ''Wireless_Out50'' = None"
    by (simp add: mesh_unit_def addOutDirection_def RoutingUnit_init_def)
  from unregistered_direction_port_0 [where rtr = "mesh_router 0 []" and route = "route_to 8"
      and inport_dirn = "''Local''" and dirn = "''North''" and ru = RoutingUnit_init and inport = 0]
    a1 a2
  have r1: "outportComputeXY (mesh_router 0 []) RoutingUnit_init (route_to 8) 0 ''Local'' =
     Inr (0, RoutingUnit_init\<lparr>m_outports_dirn2idx := (m_outports_dirn2idx RoutingUnit_init)(''North'' \<mapsto> 0)\<rparr>)"
    by blast
  from unregistered_direction_port_0 [where rtr = "mesh_router 21 four_hubs" and route = "route_to 48"
      and inport_dirn = "''Local''" and dirn' = "''Wireless_Out50''" and hub = 50 and ru = mesh_unit
      and inport = 0] b1 b2 b3 b4
  have r2: "outportComputeCustom (mesh_router 21 four_hubs) mesh_unit (route_to 48) 0 ''Local'' =
     Inr ((0, 50), mesh_unit\<lparr>m_outports_dirn2idx := (m_outports_dirn2idx mesh_unit)(''Wireless_Out50'' \<mapsto> 0)\<rparr>)"
    by blast
  from a1 a2 r1 b1 b2 b3 b4 r2 show ?thesis by blast
qed

text \<open>
  C1 as stated fails at router 18, whose unit has the five wired directions only: the
  wireless link to router 45 resolves to port 0, the port of the direction Local. It
  fails as well for the wired direction East on a unit without directions.
\<close>

theorem unregistered_direction_counterexample:
  "m_outports_dirn2idx mesh_unit ''Wireless_Out45'' = None \<and>
   hybrid_dirn 8 18 (hybridChoice (mesh_router 18 four_hubs) (route_to 47)) = (''Wireless_Out45'', 45) \<and>
   map_sum id fst (outportComputeCustom (mesh_router 18 four_hubs) mesh_unit (route_to 47) 0 ''Local'')
     = Inr (0, 45) \<and>
   m_outports_dirn2idx RoutingUnit_init ''East'' = None \<and>
   outportComputeXY_dirn (mesh_router 0 []) (route_to 1) ''Local'' = Inr ''East'' \<and>
   map_sum id fst (outportComputeXY (mesh_router 0 []) RoutingUnit_init (route_to 1) 0 ''Local'') = Inr 0"
  by code_simp

subsection \<open>The hop count of the wireless path\<close>

text \<open>
  C2, amended. At one of the routers 18, 21, 45 and 50 that is a key of the configured
  map, \<open>hybridHops\<close> is the least hop count of the paths that start with the wireless
  hop: the minimum over the routers \<open>h\<close> connected to this one of the distance from
  \<open>h\<close> to the destination plus 1, not the minimum over all paths with one wireless
  hop. At a router that is neither one of those four nor a key of the map, it is the
  minimum over all connections \<open>(h1, h2)\<close> of the map of the distance to \<open>h1\<close>, plus
  1, plus the distance from \<open>h2\<close> to the destination. In both cases the value is
  \<^verbatim>\<open>INT_MAX\<close> when there is no such path. The wired route is selected whenever
  \<open>hybridHops >= xyHops\<close>, and the wireless path otherwise.
\<close>

theorem hybrid_hops_minimum:
  "(at_hybrid_router (get_id rtr) \<and> get_id rtr \<in> fst ` set (get_hybrid_connections rtr) \<longrightarrow>
      hybrid_hops (hybridChoice rtr route) =
        Min (insert INT_MAX (set (direct_wireless_costs (getNumCols rtr) (dest_router route)
               (connections_of (get_hybrid_connections rtr) (get_id rtr)))))) \<and>
   (\<not> at_hybrid_router (get_id rtr) \<and> get_id rtr \<notin> fst ` set (get_hybrid_connections rtr) \<longrightarrow>
      hybrid_hops (hybridChoice rtr route) =
        Min (insert INT_MAX (set (single_wireless_costs (getNumCols rtr) (get_id rtr)
               (dest_router route) (get_hybrid_connections rtr))))) \<and>
   (getNumCols rtr \<noteq> 0 \<longrightarrow>
      outportComputeCustom rtr ru route inport inport_dirn =
        (if xyHops rtr route \<le> hybrid_hops (hybridChoice rtr route)
         then wiredPath rtr ru route inport inport_dirn
         else Inr (hybridPath rtr ru route)))"
proof (intro conjI impI)
  assume "at_hybrid_router (get_id rtr) \<and> get_id rtr \<in> fst ` set (get_hybrid_connections rtr)"
  then show "hybrid_hops (hybridChoice rtr route) =
        Min (insert INT_MAX (set (direct_wireless_costs (getNumCols rtr) (dest_router route)
               (connections_of (get_hybrid_connections rtr) (get_id rtr)))))"
    by (simp add: hybridChoice_def hybrid_search_def scan_connected_hops fold_min_Min no_choice_def)
next
  assume "\<not> at_hybrid_router (get_id rtr) \<and> get_id rtr \<notin> fst ` set (get_hybrid_connections rtr)"
  then show "hybrid_hops (hybridChoice rtr route) =
        Min (insert INT_MAX (set (single_wireless_costs (getNumCols rtr) (get_id rtr)
               (dest_router route) (get_hybrid_connections rtr))))"
    by (simp add: hybridChoice_def hybrid_search_def scan_entries_hops fold_min_Min no_choice_def)
next
  assume "getNumCols rtr \<noteq> 0"
  from outportComputeCustom_cases [OF this, of ru route inport inport_dirn]
  show "outportComputeCustom rtr ru route inport inport_dirn =
        (if xyHops rtr route \<le> hybrid_hops (hybridChoice rtr route)
         then wiredPath rtr ru route inport inport_dirn
         else Inr (hybridPath rtr ru route))"
    by simp
qed

text \<open>
  An instance of each part, with the four hybrid routers connected to each other: at
  router 18 for router 47, and at router 0 for router 63.
\<close>

theorem hybrid_hops_minimum_witness:
  "at_hybrid_router (get_id (mesh_router 18 four_hubs)) \<and>
   get_id (mesh_router 18 four_hubs) \<in> fst ` set (get_hybrid_connections (mesh_router 18 four_hubs)) \<and>
   direct_wireless_costs 8 47 (connections_of four_hubs 18) = [6, 3, 7] \<and>
   hybrid_hops (hybridChoice (mesh_router 18 four_hubs) (route_to 47)) = 3 \<and>
   \<not> at_hybrid_router (get_id (mesh_router 0 four_hubs)) \<and>
   get_id (mesh_router 0 four_hubs) \<notin> fst ` set (get_hybrid_connections (mesh_router 0 four_hubs)) \<and>
   single_wireless_costs 8 0 63 four_hubs = [12, 9, 11, 18, 12, 14, 21, 18, 17, 19, 16, 13] \<and>
   hybrid_hops (hybridChoice (mesh_router 0 four_hubs) (route_to 63)) = 9 \<and>
   getNumCols (mesh_router 0 four_hubs) \<noteq> 0 \<and>
   xyHops (mesh_router 0 four_hubs) (route_to 63) = 14 \<and>
   outportComputeCustom (mesh_router 0 four_hubs) mesh_unit (route_to 63) 0 ''Local'' =
     Inr (hybridPath (mesh_router 0 four_hubs) mesh_unit (route_to 63))"
proof -
  have g: "get_id (mesh_router 18 four_hubs) = 18" "getNumCols (mesh_router 18 four_hubs) = 8"
    "get_hybrid_connections (mesh_router 18 four_hubs) = four_hubs"
    "get_id (mesh_router 0 four_hubs) = 0" "getNumCols (mesh_router 0 four_hubs) = 8"
    "get_hybrid_connections (mesh_router 0 four_hubs) = four_hubs"
    "dest_router (route_to 47) = 47" "dest_router (route_to 63) = 63"
    by (simp_all add: mesh_router_def route_to_def)
  have a1: "at_hybrid_router (get_id (mesh_router 18 four_hubs))"
    by (simp add: g at_hybrid_router_def)
  have a2: "get_id (mesh_router 18 four_hubs) \<in> fst ` set (get_hybrid_connections (mesh_router 18 four_hubs))"
    unfolding g by (simp add: four_hubs_def)
  have a3: "direct_wireless_costs 8 47 (connections_of four_hubs 18) = [6, 3, 7]"
    by code_simp
  have b1: "\<not> at_hybrid_router (get_id (mesh_router 0 four_hubs))"
    by (simp add: g at_hybrid_router_def)
  have b2: "get_id (mesh_router 0 four_hubs) \<notin> fst ` set (get_hybrid_connections (mesh_router 0 four_hubs))"
    unfolding g by (simp add: four_hubs_def)
  have b3: "single_wireless_costs 8 0 63 four_hubs = [12, 9, 11, 18, 12, 14, 21, 18, 17, 19, 16, 13]"
    by code_simp
  have c1: "getNumCols (mesh_router 0 four_hubs) \<noteq> 0"
    by (simp add: g)
  have c2: "xyHops (mesh_router 0 four_hubs) (route_to 63) = 14"
    by code_simp
  from hybrid_hops_minimum [of "mesh_router 18 four_hubs" "route_to 47"] a1 a2
  have r1: "hybrid_hops (hybridChoice (mesh_router 18 four_hubs) (route_to 47)) = 3"
    unfolding g a3 by (simp add: INT_MAX_def)
  from hybrid_hops_minimum [of "mesh_router 0 four_hubs" "route_to 63" mesh_unit 0 "''Local''"] b1 b2 c1
  have r2: "hybrid_hops (hybridChoice (mesh_router 0 four_hubs) (route_to 63)) = 9"
    and r3: "outportComputeCustom (mesh_router 0 four_hubs) mesh_unit (route_to 63) 0 ''Local'' =
        (if xyHops (mesh_router 0 four_hubs) (route_to 63)
              \<le> hybrid_hops (hybridChoice (mesh_router 0 four_hubs) (route_to 63))
         then wiredPath (mesh_router 0 four_hubs) mesh_unit (route_to 63) 0 ''Local''
         else Inr (hybridPath (mesh_router 0 four_hubs) mesh_unit (route_to 63)))"
    unfolding g b3 by (simp_all add: INT_MAX_def)
  from r3 have r4: "outportComputeCustom (mesh_router 0 four_hubs) mesh_unit (route_to 63) 0 ''Local'' =
     Inr (hybridPath (mesh_router 0 four_hubs) mesh_unit (route_to 63))"
    unfolding r2 c2 by simp
  from a1 a2 a3 r1 b1 b2 b3 r2 c1 c2 r4 show ?thesis by blast
qed

text \<open>
  C2 as stated fails at router 18 when the four routers are connected in pairs: for
  router 47 the code counts 7 hops, through the link from 18 to 50, while the path over
  the wires to router 21 and through the air to router 45 has 6.
\<close>

theorem hybrid_hops_minimum_counterexample:
  "hybrid_hops (hybridChoice (mesh_router 18 paired_hubs) (route_to 47)) = 7 \<and>
   single_wireless_costs 8 18 47 paired_hubs = [7, 13, 6, 12] \<and>
   Min (set (single_wireless_costs 8 18 47 paired_hubs)) = 6"
  by code_simp

text \<open>
  C3 does not hold of the code: which loop is taken depends on the four literal ids,
  not on the configured map. With hybrid routers 5 and 60, router 5 is a key of the map
  but takes the loop over all entries, chooses itself as the router to go to, finds no
  direction and returns the port of the direction \<open>''Unknown''\<close>, which is port 0,
  where the loop over its connections gives the wireless link to router 60 on port 5.
  Router 18, which is not in this map, takes the loop over its own (absent)
  connections and falls back to the wires, though a path with one wireless hop is
  shorter (7 hops against 8).
\<close>

theorem configured_hub_takes_other_branch:
  "get_id (mesh_router 5 other_hubs) \<in> fst ` set (get_hybrid_connections (mesh_router 5 other_hubs)) \<and>
   \<not> at_hybrid_router (get_id (mesh_router 5 other_hubs)) \<and>
   hybridChoice (mesh_router 5 other_hubs) (route_to 61) =
     scan_entries 8 5 61 other_hubs no_choice \<and>
   hybridChoice (mesh_router 5 other_hubs) (route_to 61) =
     \<lparr>hybrid_hops = 2, best_hybrid_router = 5, dest_hybrid_router = 60\<rparr> \<and>
   xyHops (mesh_router 5 other_hubs) (route_to 61) = 7 \<and>
   hybrid_dirn 8 5 (hybridChoice (mesh_router 5 other_hubs) (route_to 61)) = (''Unknown'', 60) \<and>
   map_sum id fst (outportComputeCustom (mesh_router 5 other_hubs)
      (addOutDirection ''Wireless_Out60'' 5 mesh_unit) (route_to 61) 0 ''Local'') = Inr (0, 60) \<and>
   scan_connected 8 61 (connections_of other_hubs 5) no_choice =
     \<lparr>hybrid_hops = 2, best_hybrid_router = 60, dest_hybrid_router = 60\<rparr> \<and>
   fst (resolve_outport (addOutDirection ''Wireless_Out60'' 5 mesh_unit)
          (''Wireless_Out'' @ to_string 60)) = 5 \<and>
   at_hybrid_router (get_id (mesh_router 18 other_hubs)) \<and>
   get_id (mesh_router 18 other_hubs) \<notin> fst ` set (get_hybrid_connections (mesh_router 18 other_hubs)) \<and>
   hybridChoice (mesh_router 18 other_hubs) (route_to 61) = no_choice \<and>
   Min (set (single_wireless_costs 8 18 61 other_hubs)) = 7 \<and>
   xyHops (mesh_router 18 other_hubs) (route_to 61) = 8 \<and>
   map_sum id fst (outportComputeCustom (mesh_router 18 other_hubs) mesh_unit (route_to 61) 0 ''Local'')
     = Inr (1, -1)"
  by code_simp

end
